theory Spec2Isabelle
  imports Complex_Main "HOL-Library.AList" "HOL-Library.Multiset" "HOL-Library.Sublist"
begin

section \<open>Data model\<close>

text \<open>
  A JavaScript \<open>number\<close> that is finite is a rational; the comparator of the sorts below,
  \<open>a - b\<close>, has the sign of the comparison of the two rationals. \<open>NaN\<close> and the
  infinities are outside the model.
\<close>

type_synonym number = rat

text \<open>
  A component type is a class constructor, used as a map key by identity; \<open>name\<close> is the
  constructor's \<open>name\<close> property.
\<close>

datatype ComponentType = Class (ident: nat) (name: string)

datatype PropertyType =
  T_string | T_number | T_boolean | T_vector2 | T_vector3 | T_color | T_range | T_enum

text \<open>
  \<open>decorators/component.ts\<close>, interface \<open>PropertyMetadata\<close>. An optional field that is
  left out is \<open>None\<close>. The fields \<open>type\<close>, \<open>min\<close> and \<open>max\<close> carry a suffix.
\<close>

record PropertyMetadata =
  displayName :: "string option"
  description :: "string option"
  type_p :: PropertyType
  readonly :: "bool option"
  min_p :: "number option"
  max_p :: "number option"
  step :: "number option"
  options :: "string list option"
  category :: "string option"
  order :: "number option"

text \<open>\<open>decorators/component.ts\<close>, interface \<open>ComponentMetadata\<close>.\<close>

record ComponentMetadata =
  displayName :: string
  description :: "string option"
  icon :: "string option"
  category :: "string option"
  removable :: "bool option"
  addable :: "bool option"
  order :: "number option"

text \<open>
  A \<open>Map<string, PropertyMetadata>\<close> object lives in a store of map objects and is
  named by its address: a registration holds the very map object of the property
  metadata store, not a copy. The contents of a map object are its entries in insertion
  order.
\<close>

type_synonym ref = nat

type_synonym PropertyMap = "(string \<times> PropertyMetadata) list"

text \<open>\<open>plugins/EditorComponentPlugin.ts\<close>, interface \<open>ComponentRegistration\<close>.\<close>

record ComponentRegistration =
  componentType :: ComponentType
  metadata :: ComponentMetadata
  properties :: ref

text \<open>
  The state of the two modules: the two \<open>WeakMap\<close>s of \<open>decorators/component.ts\<close>
  (not enumerable, hence partial functions), its \<open>Set\<close> of decorated types (in insertion
  order), the \<open>registrations\<close> map of the \<open>EditorComponentRegistry\<close> singleton (an
  insertion-ordered \<open>Map\<close>), the store of property map objects with the next free
  address, and the lines written by \<open>console.log\<close>.
\<close>

record runtime =
  componentMetadataMap :: "ComponentType \<rightharpoonup> ComponentMetadata"
  propertyMetadataMap :: "ComponentType \<rightharpoonup> ref"
  globalComponentRegistry :: "ComponentType list"
  registrations :: "(ComponentType \<times> ComponentRegistration) list"
  mapObjects :: "ref \<Rightarrow> PropertyMap"
  nextRef :: ref
  console :: "string list"

definition initial :: runtime where
  "initial =
     \<lparr>componentMetadataMap = Map.empty, propertyMetadataMap = Map.empty,
      globalComponentRegistry = [], registrations = [],
      mapObjects = (\<lambda>r. []), nextRef = 0, console = []\<rparr>"

section \<open>The metadata store and the decorators\<close>

text \<open>\<open>Set.prototype.add\<close>: a new element goes last, a present one stays where it is.\<close>

definition Set_add :: "'a \<Rightarrow> 'a list \<Rightarrow> 'a list" where
  "Set_add x xs = (if x \<in> set xs then xs else xs @ [x])"

text \<open>
  \<open>Map.prototype.set\<close> is \<^const>\<open>AList.update\<close>: the value of a present key is
  replaced in place, a new key goes last.
\<close>

text \<open>\<open>new Map()\<close>: a fresh, empty map object.\<close>

definition new_Map :: "runtime \<Rightarrow> ref \<times> runtime" where
  "new_Map s =
     (nextRef s, s\<lparr>mapObjects := (mapObjects s)(nextRef s := []), nextRef := Suc (nextRef s)\<rparr>)"

text \<open>
  \<open>componentDecorator(options)(target)\<close>. The options have the shape of the metadata:
  \<open>displayName\<close> is required, everything else may be left out.
\<close>

definition componentDecorator :: "ComponentMetadata \<Rightarrow> ComponentType \<Rightarrow> runtime \<Rightarrow> runtime" where
  "componentDecorator opts target s =
     (let md = \<lparr>displayName = ComponentMetadata.displayName opts,
                description = ComponentMetadata.description opts,
                icon = icon opts,
                category = ComponentMetadata.category opts,
                removable = Some (removable opts \<noteq> Some False),
                addable = Some (addable opts \<noteq> Some False),
                order = ComponentMetadata.order opts\<rparr>
      in s\<lparr>componentMetadataMap := (componentMetadataMap s)(target \<mapsto> md),
           globalComponentRegistry := Set_add target (globalComponentRegistry s)\<rparr>)"

text \<open>\<open>property(options)(target, propertyKey)\<close>, with \<open>target.constructor\<close> given.\<close>

definition property :: "PropertyMetadata \<Rightarrow> ComponentType \<Rightarrow> string \<Rightarrow> runtime \<Rightarrow> runtime" where
  "property opts ct propertyKey s =
     (let (r, s1) = (case propertyMetadataMap s ct of
                       Some r \<Rightarrow> (r, s)
                     | None \<Rightarrow> (let (r, s') = new_Map s
                                in (r, s'\<lparr>propertyMetadataMap := (propertyMetadataMap s')(ct \<mapsto> r)\<rparr>)))
      in s1\<lparr>mapObjects := (mapObjects s1)(r := AList.update propertyKey opts (mapObjects s1 r))\<rparr>)"

definition getComponentMetadata :: "runtime \<Rightarrow> ComponentType \<Rightarrow> ComponentMetadata option" where
  "getComponentMetadata s ct = componentMetadataMap s ct"

text \<open>
  \<open>getAllPropertyMetadata\<close> of \<open>decorators/component.ts\<close>: the stored map object, or a
  fresh empty one.
\<close>

definition getAllPropertyMetadata :: "runtime \<Rightarrow> ComponentType \<Rightarrow> ref \<times> runtime" where
  "getAllPropertyMetadata s ct =
     (case propertyMetadataMap s ct of Some r \<Rightarrow> (r, s) | None \<Rightarrow> new_Map s)"

definition hasComponentMetadata :: "runtime \<Rightarrow> ComponentType \<Rightarrow> bool" where
  "hasComponentMetadata s ct = (componentMetadataMap s ct \<noteq> None)"

definition getAllRegisteredComponentTypes :: "runtime \<Rightarrow> ComponentType list" where
  "getAllRegisteredComponentTypes s = globalComponentRegistry s"

definition clearAllMetadata :: "runtime \<Rightarrow> runtime" where
  "clearAllMetadata s = s\<lparr>globalComponentRegistry := []\<rparr>"

section \<open>The component registry\<close>

text \<open>\<open>EditorComponentRegistry.register\<close>; the metadata object is truthy when present.\<close>

definition register :: "ComponentType \<Rightarrow> runtime \<Rightarrow> runtime" where
  "register ct s =
     (let md = getComponentMetadata s ct;
          (props, s1) = getAllPropertyMetadata s ct
      in case md of
           None \<Rightarrow> s1
         | Some m \<Rightarrow>
             s1\<lparr>registrations :=
                   AList.update ct \<lparr>componentType = ct, metadata = m, properties = props\<rparr>
                     (registrations s1),
                console := console s1 @
                   [''Registered editor component: '' @ ComponentMetadata.displayName m @
                    '' ('' @ name ct @ '')'']\<rparr>)"

definition get :: "runtime \<Rightarrow> ComponentType \<Rightarrow> ComponentRegistration option" where
  "get s ct = map_of (registrations s) ct"

definition has :: "runtime \<Rightarrow> ComponentType \<Rightarrow> bool" where
  "has s ct = (map_of (registrations s) ct \<noteq> None)"

definition getAll :: "runtime \<Rightarrow> ComponentRegistration list" where
  "getAll s = map snd (registrations s)"

definition getAddable :: "runtime \<Rightarrow> ComponentRegistration list" where
  "getAddable s = filter (\<lambda>reg. addable (metadata reg) \<noteq> Some False) (getAll s)"

definition getByCategory :: "runtime \<Rightarrow> string \<Rightarrow> ComponentRegistration list" where
  "getByCategory s c = filter (\<lambda>reg. ComponentMetadata.category (metadata reg) = Some c) (getAll s)"

definition clear :: "runtime \<Rightarrow> runtime" where
  "clear s = s\<lparr>registrations := []\<rparr>"

text \<open>
  The states the program can be in: from the initial one, by the decorators, by
  \<open>register\<close>, and by the two clearing operations.
\<close>

inductive reachable :: "runtime \<Rightarrow> bool" where
  reach_initial: "reachable initial"
| reach_component: "reachable s \<Longrightarrow> reachable (componentDecorator opts ct s)"
| reach_property: "reachable s \<Longrightarrow> reachable (property popts ct key s)"
| reach_register: "reachable s \<Longrightarrow> reachable (register ct s)"
| reach_clear: "reachable s \<Longrightarrow> reachable (clear s)"
| reach_clearAllMetadata: "reachable s \<Longrightarrow> reachable (clearAllMetadata s)"

section \<open>JavaScript values the helpers rely on\<close>

text \<open>
  \<open>order || 999\<close> on a \<open>number | undefined\<close>: the left operand is falsy when it is
  \<open>undefined\<close> and also when it is \<open>0\<close>.
\<close>

definition order_or_999 :: "number option \<Rightarrow> number" where
  "order_or_999 ord = (case ord of None \<Rightarrow> 999 | Some n \<Rightarrow> if n = 0 then 999 else n)"

text \<open>
  \<open>a || b\<close> on a \<open>string | undefined\<close>: the left operand is falsy when it is
  \<open>undefined\<close> and also when it is the empty string.
\<close>

definition string_or :: "string option \<Rightarrow> string \<Rightarrow> string" where
  "string_or a b = (case a of None \<Rightarrow> b | Some x \<Rightarrow> if x = [] then b else x)"

text \<open>
  The two default labels of \<open>utils/ComponentUtils.ts\<close>, as the UTF-8 bytes of the source
  literals: \<open>Uncategorized\<close>, a space and three Chinese characters; \<open>General\<close>, a space
  and two Chinese characters. Two strings are equal exactly when their UTF-8 bytes are.
\<close>

definition label_Uncategorized :: string where
  "label_Uncategorized =
     ''Uncategorized '' @
     [CHR 0xE6, CHR 0x9C, CHR 0xAA, CHR 0xE5, CHR 0x88, CHR 0x86, CHR 0xE7, CHR 0xB1, CHR 0xBB]"

definition label_General :: string where
  "label_General = ''General '' @ [CHR 0xE9, CHR 0x80, CHR 0x9A, CHR 0xE7, CHR 0x94, CHR 0xA8]"

text \<open>
  \<open>Array.prototype.sort(compare)\<close> is a stable sort (ECMAScript 2019; the package asks
  for Node 16 or later). For a comparator that is a consistent order, as \<open>a - b\<close> on
  keys is, every stable sort returns the same array; the model inserts each element, from
  the last to the first, before the first element it does not compare greater than.
\<close>

fun insert_by :: "('a \<Rightarrow> 'a \<Rightarrow> number) \<Rightarrow> 'a \<Rightarrow> 'a list \<Rightarrow> 'a list" where
  "insert_by cmp x [] = [x]"
| "insert_by cmp x (y # ys) = (if cmp x y \<le> 0 then x # y # ys else y # insert_by cmp x ys)"

definition Array_sort :: "('a \<Rightarrow> 'a \<Rightarrow> number) \<Rightarrow> 'a list \<Rightarrow> 'a list" where
  "Array_sort cmp xs = foldr (insert_by cmp) xs []"

text \<open>
  An object literal \<open>{}\<close> used as a \<open>Record<string, _>\<close> inherits the members of
  \<open>Object.prototype\<close>: reading one of these keys on a fresh object yields the inherited
  member (a function or an object, truthy), not \<open>undefined\<close>. A record is modelled by
  its own properties, in the order of their creation, read with \<^const>\<open>map_of\<close>; the
  order in which JavaScript enumerates the keys is not modelled.
\<close>

definition Object_prototype_keys :: "string list" where
  "Object_prototype_keys =
     [''constructor'', ''__defineGetter__'', ''__defineSetter__'', ''hasOwnProperty'',
      ''__lookupGetter__'', ''__lookupSetter__'', ''isPrototypeOf'', ''propertyIsEnumerable'',
      ''toString'', ''valueOf'', ''__proto__'', ''toLocaleString'']"

datatype error = TypeError

section \<open>The query helpers of \<open>utils/ComponentUtils.ts\<close>\<close>

definition getAvailableComponentTypes :: "runtime \<Rightarrow> (ComponentType \<times> ComponentRegistration) list" where
  "getAvailableComponentTypes s =
     Array_sort
       (\<lambda>a b. order_or_999 (ComponentMetadata.order (metadata (snd a))) -
              order_or_999 (ComponentMetadata.order (metadata (snd b))))
       (map (\<lambda>registration. (componentType registration, registration)) (getAddable s))"

definition getComponentRegistration :: "runtime \<Rightarrow> ComponentType \<Rightarrow> ComponentRegistration option" where
  "getComponentRegistration s ct = get s ct"

text \<open>
  The body of the grouping loops: \<open>if (!grouped[category]) grouped[category] = [];
  grouped[category].push(x)\<close>. For a key of \<open>Object.prototype\<close> the read yields the
  inherited member, nothing is created, and the call of its missing \<open>push\<close> throws.
\<close>

definition push_grouped :: "string \<Rightarrow> 'a \<Rightarrow> (string \<times> 'a list) list \<Rightarrow> error + (string \<times> 'a list) list" where
  "push_grouped c x grouped =
     (if c \<in> set Object_prototype_keys then Inl TypeError
      else case map_of grouped c of
             None \<Rightarrow> Inr (grouped @ [(c, [x])])
           | Some xs \<Rightarrow> Inr (AList.update c (xs @ [x]) grouped))"

fun group_loop :: "('a \<Rightarrow> string) \<Rightarrow> 'a list \<Rightarrow> (string \<times> 'a list) list \<Rightarrow> error + (string \<times> 'a list) list" where
  "group_loop key [] grouped = Inr grouped"
| "group_loop key (x # xs) grouped =
     (case push_grouped (key x) x grouped of
        Inl e \<Rightarrow> Inl e
      | Inr grouped' \<Rightarrow> group_loop key xs grouped')"

definition getComponentsByCategory :: "runtime \<Rightarrow> error + (string \<times> ComponentRegistration list) list" where
  "getComponentsByCategory s =
     (case group_loop
             (\<lambda>registration. string_or (ComponentMetadata.category (metadata registration)) label_Uncategorized)
             (getAll s) [] of
        Inl e \<Rightarrow> Inl e
      | Inr grouped \<Rightarrow>
          Inr (map (\<lambda>(c, regs).
                     (c, Array_sort
                           (\<lambda>a b. order_or_999 (ComponentMetadata.order (metadata a)) -
                                  order_or_999 (ComponentMetadata.order (metadata b)))
                           regs))
                 grouped))"

definition canRemoveComponent :: "runtime \<Rightarrow> ComponentType \<Rightarrow> bool" where
  "canRemoveComponent s ct =
     (case getComponentRegistration s ct of
        None \<Rightarrow> True
      | Some registration \<Rightarrow> removable (metadata registration) \<noteq> Some False)"

definition canAddComponent :: "runtime \<Rightarrow> ComponentType \<Rightarrow> bool" where
  "canAddComponent s ct =
     (case getComponentRegistration s ct of
        None \<Rightarrow> True
      | Some registration \<Rightarrow> addable (metadata registration) \<noteq> Some False)"

text \<open>
  \<open>getAllPropertyMetadata\<close> of \<open>utils/ComponentUtils.ts\<close>: the map object of the
  registration, or a fresh empty map. Its callers only read the map, so the model returns
  the entries.
\<close>

definition ComponentUtils_getAllPropertyMetadata :: "runtime \<Rightarrow> ComponentType \<Rightarrow> PropertyMap" where
  "ComponentUtils_getAllPropertyMetadata s ct =
     (case getComponentRegistration s ct of
        None \<Rightarrow> []
      | Some registration \<Rightarrow> mapObjects s (properties registration))"

definition getPropertiesByCategory :: "runtime \<Rightarrow> ComponentType \<Rightarrow> error + (string \<times> (string \<times> PropertyMetadata) list) list" where
  "getPropertiesByCategory s ct =
     (case group_loop
             (\<lambda>entry. string_or (PropertyMetadata.category (snd entry)) label_General)
             (ComponentUtils_getAllPropertyMetadata s ct) [] of
        Inl e \<Rightarrow> Inl e
      | Inr grouped \<Rightarrow>
          Inr (map (\<lambda>(c, entries).
                     (c, Array_sort
                           (\<lambda>a b. order_or_999 (PropertyMetadata.order (snd a)) -
                                  order_or_999 (PropertyMetadata.order (snd b)))
                           entries))
                 grouped))"

section \<open>Statistics\<close>

text \<open>
  A value of the \<open>categories\<close> record of \<open>getStatistics\<close>: a count, or the string
  that \<open>+ 1\<close> makes of an inherited member of \<open>Object.prototype\<close> (its text depends on
  the engine and is not modelled).
\<close>

datatype tally = Count nat | Text

text \<open>
  \<open>categories[c] = (categories[c] || 0) + 1\<close>. An own count is at least 1, hence
  truthy. For a key of \<open>Object.prototype\<close> that is not yet an own property, the read
  yields the inherited member and \<open>+ 1\<close> a string; a string plus 1 is a string again.
  Assigning a string to \<open>__proto__\<close> has no effect.
\<close>

definition count_category :: "string \<Rightarrow> (string \<times> tally) list \<Rightarrow> (string \<times> tally) list" where
  "count_category c categories =
     (case map_of categories c of
        Some (Count n) \<Rightarrow> AList.update c (Count (n + 1)) categories
      | Some Text \<Rightarrow> categories
      | None \<Rightarrow>
          if c = ''__proto__'' then categories
          else if c \<in> set Object_prototype_keys then categories @ [(c, Text)]
          else categories @ [(c, Count 1)])"

record Statistics =
  totalComponents :: nat
  addableComponents :: nat
  categorizedComponents :: "(string \<times> tally) list"

text \<open>One round of the loop of \<open>getStatistics\<close>; a category is truthy when it is present
  and not empty.\<close>

definition statistics_step :: "ComponentRegistration \<Rightarrow> nat \<times> (string \<times> tally) list \<Rightarrow> nat \<times> (string \<times> tally) list" where
  "statistics_step registration acc =
     (let (addableCount, categories) = acc;
          addableCount' = (if addable (metadata registration) \<noteq> Some False
                           then addableCount + 1 else addableCount);
          categories' = (case ComponentMetadata.category (metadata registration) of
                           None \<Rightarrow> categories
                         | Some c \<Rightarrow> if c = [] then categories else count_category c categories)
      in (addableCount', categories'))"

definition getStatistics :: "runtime \<Rightarrow> Statistics" where
  "getStatistics s =
     (let (addableCount, categories) = fold statistics_step (map snd (registrations s)) (0, [])
      in \<lparr>totalComponents = length (registrations s),
          addableComponents = addableCount,
          categorizedComponents = categories\<rparr>)"

section \<open>What the claims say of a sorted output\<close>

text \<open>
  \<open>out\<close> is a stable sort of \<open>inp\<close> by the key \<open>k\<close>: the same elements, ascending
  in \<open>k\<close>, and the elements of any one key in the order they had in \<open>inp\<close>.
\<close>

definition stable_sort_of :: "('a \<Rightarrow> number) \<Rightarrow> 'a list \<Rightarrow> 'a list \<Rightarrow> bool" where
  "stable_sort_of k inp out =
     (mset out = mset inp \<and> sorted (map k out) \<and>
      (\<forall>x\<in>set inp. filter (\<lambda>y. k y = k x) out = filter (\<lambda>y. k y = k x) inp))"

text \<open>In \<open>xs\<close>, every element that satisfies \<open>P\<close> stands before every element that
  satisfies \<open>Q\<close>.\<close>

definition all_before :: "('a \<Rightarrow> bool) \<Rightarrow> ('a \<Rightarrow> bool) \<Rightarrow> 'a list \<Rightarrow> bool" where
  "all_before P Q xs = (\<forall>i<length xs. \<forall>j<length xs. P (xs ! i) \<and> Q (xs ! j) \<longrightarrow> i < j)"

text \<open>The order the claims speak of: the explicit order, and 999 when it is missing.\<close>

definition effective_order :: "number option \<Rightarrow> number" where
  "effective_order ord = (case ord of None \<Rightarrow> 999 | Some n \<Rightarrow> n)"

text \<open>An explicit order that is below, or is above, the default 999.\<close>

definition explicit_below_999 :: "number option \<Rightarrow> bool" where
  "explicit_below_999 ord = (case ord of None \<Rightarrow> False | Some n \<Rightarrow> n < 999)"

definition explicit_above_999 :: "number option \<Rightarrow> bool" where
  "explicit_above_999 ord = (case ord of None \<Rightarrow> False | Some n \<Rightarrow> 999 < n)"

text \<open>
  The ordering of an output \<open>out\<close> made from \<open>inp\<close>, with \<open>ord\<close> reading the order
  of an entry: a stable sort by the order, a missing order taken as 999, in which the
  entries with an explicit order below 999 stand before the entries without an order, and
  these before the entries with an explicit order above 999.
\<close>

definition ordered_output :: "('a \<Rightarrow> number option) \<Rightarrow> 'a list \<Rightarrow> 'a list \<Rightarrow> bool" where
  "ordered_output ord inp out =
     (stable_sort_of (\<lambda>x. effective_order (ord x)) inp out \<and>
      all_before (\<lambda>x. explicit_below_999 (ord x)) (\<lambda>x. ord x = None) out \<and>
      all_before (\<lambda>x. ord x = None) (\<lambda>x. explicit_above_999 (ord x)) out)"

text \<open>A category that is absent, or is not the name of a member of \<open>Object.prototype\<close>.\<close>

definition safe_category :: "string option \<Rightarrow> bool" where
  "safe_category c = (case c of None \<Rightarrow> True | Some x \<Rightarrow> x \<notin> set Object_prototype_keys)"

section \<open>Example declarations\<close>

text \<open>
  Two decorated component types and one that is not decorated. \<open>Health\<close> has one
  decorated property, order 2 and is not removable; \<open>Mana\<close> has order 1 and is not
  addable. Both are in the category \<open>Gameplay\<close>.
\<close>

definition Health :: ComponentType where
  "Health = Class 1 ''HealthComponent''"

definition Mana :: ComponentType where
  "Mana = Class 2 ''ManaComponent''"

definition Tag :: ComponentType where
  "Tag = Class 3 ''TagComponent''"

definition opts_Health :: ComponentMetadata where
  "opts_Health =
     \<lparr>displayName = ''Health'', description = None, icon = None,
      category = Some ''Gameplay'', removable = Some False, addable = None, order = Some 2\<rparr>"

definition opts_Mana :: ComponentMetadata where
  "opts_Mana =
     \<lparr>displayName = ''Mana'', description = None, icon = None,
      category = Some ''Gameplay'', removable = None, addable = Some False, order = Some 1\<rparr>"

definition opts_hp :: PropertyMetadata where
  "opts_hp =
     \<lparr>PropertyMetadata.displayName = None, description = None, type_p = T_range,
      readonly = None, min_p = Some 0, max_p = Some 100, step = None, options = None,
      category = Some ''Stats'', order = Some 1\<rparr>"

definition declared :: runtime where
  "declared =
     componentDecorator opts_Mana Mana
       (componentDecorator opts_Health Health (property opts_hp Health ''hp'' initial))"

definition registered :: runtime where
  "registered = register Mana (register Health declared)"

text \<open>
  Three decorated types without a category: \<open>Plain\<close> without an order and with two
  decorated properties (\<open>x\<close> without an order, \<open>y\<close> with order 1000), \<open>Late\<close>
  with order 1000 and \<open>Early\<close> with order 5; registered in the order \<open>Plain\<close>,
  \<open>Late\<close>, \<open>Early\<close>.
\<close>

definition Plain :: ComponentType where
  "Plain = Class 4 ''PlainComponent''"

definition Late :: ComponentType where
  "Late = Class 5 ''LateComponent''"

definition Early :: ComponentType where
  "Early = Class 6 ''EarlyComponent''"

definition opts_Plain :: ComponentMetadata where
  "opts_Plain =
     \<lparr>displayName = ''Plain'', description = None, icon = None,
      category = None, removable = None, addable = None, order = None\<rparr>"

definition opts_Late :: ComponentMetadata where
  "opts_Late =
     \<lparr>displayName = ''Late'', description = None, icon = None,
      category = None, removable = None, addable = None, order = Some 1000\<rparr>"

definition opts_Early :: ComponentMetadata where
  "opts_Early =
     \<lparr>displayName = ''Early'', description = None, icon = None,
      category = None, removable = None, addable = None, order = Some 5\<rparr>"

definition opts_x :: PropertyMetadata where
  "opts_x =
     \<lparr>PropertyMetadata.displayName = None, description = None, type_p = T_number,
      readonly = None, min_p = None, max_p = None, step = None, options = None,
      category = None, order = None\<rparr>"

definition opts_y :: PropertyMetadata where
  "opts_y =
     \<lparr>PropertyMetadata.displayName = None, description = None, type_p = T_number,
      readonly = None, min_p = None, max_p = None, step = None, options = None,
      category = None, order = Some 1000\<rparr>"

definition unordered :: runtime where
  "unordered =
     register Early (register Late (register Plain
       (componentDecorator opts_Early Early
         (componentDecorator opts_Late Late
           (componentDecorator opts_Plain Plain
             (property opts_y Plain ''y'' (property opts_x Plain ''x'' initial)))))))"

text \<open>
  Two types of category \<open>Audio\<close> and the uncategorized \<open>Plain\<close>, all registered.
\<close>

definition Source :: ComponentType where
  "Source = Class 7 ''AudioSource''"

definition Listener :: ComponentType where
  "Listener = Class 8 ''AudioListener''"

definition opts_Source :: ComponentMetadata where
  "opts_Source =
     \<lparr>displayName = ''Audio Source'', description = None, icon = None,
      category = Some ''Audio'', removable = None, addable = None, order = None\<rparr>"

definition opts_Listener :: ComponentMetadata where
  "opts_Listener =
     \<lparr>displayName = ''Audio Listener'', description = None, icon = None,
      category = Some ''Audio'', removable = None, addable = None, order = None\<rparr>"

definition audio :: runtime where
  "audio =
     register Plain (register Listener (register Source
       (componentDecorator opts_Plain Plain
         (componentDecorator opts_Listener Listener
           (componentDecorator opts_Source Source initial)))))"

text \<open>
  Two types of category \<open>constructor\<close> and one of category \<open>__proto__\<close>, all
  registered.
\<close>

definition First :: ComponentType where
  "First = Class 9 ''FirstComponent''"

definition Second :: ComponentType where
  "Second = Class 10 ''SecondComponent''"

definition Third :: ComponentType where
  "Third = Class 11 ''ThirdComponent''"

definition opts_First :: ComponentMetadata where
  "opts_First =
     \<lparr>displayName = ''First'', description = None, icon = None,
      category = Some ''constructor'', removable = None, addable = None, order = None\<rparr>"

definition opts_Second :: ComponentMetadata where
  "opts_Second =
     \<lparr>displayName = ''Second'', description = None, icon = None,
      category = Some ''constructor'', removable = None, addable = None, order = None\<rparr>"

definition opts_Third :: ComponentMetadata where
  "opts_Third =
     \<lparr>displayName = ''Third'', description = None, icon = None,
      category = Some ''__proto__'', removable = None, addable = None, order = None\<rparr>"

definition inherited :: runtime where
  "inherited =
     register Third (register Second (register First
       (componentDecorator opts_Third Third
         (componentDecorator opts_Second Second
           (componentDecorator opts_First First initial)))))"

section \<open>Registration\<close>

lemmas example_defs =
  declared_def registered_def Health_def Mana_def Tag_def opts_Health_def opts_Mana_def
  opts_hp_def initial_def

lemmas operation_defs =
  componentDecorator_def property_def register_def getAllPropertyMetadata_def
  getComponentMetadata_def new_Map_def Set_add_def clear_def clearAllMetadata_def

lemmas unordered_defs =
  unordered_def Plain_def Late_def Early_def opts_Plain_def opts_Late_def opts_Early_def
  opts_x_def opts_y_def initial_def

lemmas label_defs = label_Uncategorized_def label_General_def

lemmas audio_defs =
  audio_def Source_def Listener_def Plain_def opts_Source_def opts_Listener_def opts_Plain_def
  initial_def

lemmas inherited_defs =
  inherited_def First_def Second_def Third_def opts_First_def opts_Second_def opts_Third_def
  initial_def

lemmas helper_defs =
  getComponentsByCategory_def getPropertiesByCategory_def getAvailableComponentTypes_def
  getAddable_def getAll_def ComponentUtils_getAllPropertyMetadata_def
  getComponentRegistration_def get_def push_grouped_def string_or_def
  Object_prototype_keys_def Array_sort_def order_or_999_def

lemma reachable_declared: "reachable declared"
  unfolding declared_def by (intro reachable.intros)

lemma reachable_registered: "reachable registered"
  unfolding registered_def by (intro reachable.intros reachable_declared)

lemma register_without_metadata:
  assumes "getComponentMetadata s ct = None"
  shows "registrations (register ct s) = registrations s"
    and "console (register ct s) = console s"
    and "componentMetadataMap (register ct s) = componentMetadataMap s"
    and "propertyMetadataMap (register ct s) = propertyMetadataMap s"
    and "globalComponentRegistry (register ct s) = globalComponentRegistry s"
  using assms
  by (auto simp: register_def getAllPropertyMetadata_def new_Map_def
           split: option.splits prod.splits)

text \<open>In a reachable state every registered type has component metadata.\<close>

lemma registered_has_metadata:
  "reachable s \<Longrightarrow> map_of (registrations s) ct \<noteq> None \<Longrightarrow> componentMetadataMap s ct \<noteq> None"
proof (induction arbitrary: ct rule: reachable.induct)
  case reach_initial
  then show ?case by (simp add: initial_def)
next
  case (reach_component s opts ct')
  then show ?case by (auto simp: componentDecorator_def Let_def)
next
  case (reach_property s popts ct' key)
  then show ?case
    by (auto simp: property_def new_Map_def Let_def split: option.splits prod.splits)
next
  case (reach_register s ct')
  then show ?case
    by (auto simp: register_def getAllPropertyMetadata_def getComponentMetadata_def
                   new_Map_def update_conv' split: option.splits prod.splits if_splits)
next
  case (reach_clear s)
  then show ?case by (simp add: clear_def)
next
  case (reach_clearAllMetadata s)
  then show ?case by (simp add: clearAllMetadata_def)
qed

text \<open>
  C1. For a component type without component metadata, \<open>register\<close> is a no-op: the
  stored registrations, hence \<open>getAll\<close>, \<open>get\<close> and \<open>has\<close>, are as before, the
  metadata store is as before and nothing is logged; and in every state the program can
  reach, \<open>has\<close> of that type is false afterwards.
\<close>

theorem register_without_metadata_is_noop:
  "getComponentMetadata s ct = None \<Longrightarrow>
     registrations (register ct s) = registrations s \<and>
     getAll (register ct s) = getAll s \<and>
     get (register ct s) ct = get s ct \<and>
     has (register ct s) ct = has s ct \<and>
     console (register ct s) = console s \<and>
     componentMetadataMap (register ct s) = componentMetadataMap s \<and>
     propertyMetadataMap (register ct s) = propertyMetadataMap s \<and>
     globalComponentRegistry (register ct s) = globalComponentRegistry s \<and>
     (reachable s \<longrightarrow> \<not> has (register ct s) ct)"
proof -
  assume none: "getComponentMetadata s ct = None"
  note same = register_without_metadata [OF none]
  have "\<not> has s ct" if "reachable s"
  proof
    assume "has s ct"
    then have "map_of (registrations s) ct \<noteq> None"
      by (simp add: has_def)
    from registered_has_metadata [OF that this] none show False
      by (simp add: getComponentMetadata_def)
  qed
  then show ?thesis
    using same by (simp add: getAll_def get_def has_def)
qed

theorem register_without_metadata_is_noop_witness:
  "getComponentMetadata registered Tag = None \<and> reachable registered \<and>
   registrations (register Tag registered) = registrations registered \<and>
   \<not> has (register Tag registered) Tag"
proof -
  have none: "getComponentMetadata registered Tag = None"
    by (simp add: example_defs operation_defs)
  show ?thesis
    using register_without_metadata_is_noop [OF none] none reachable_registered by blast
qed

text \<open>
  C2. For a component type with component metadata, after \<open>register\<close> the call of
  \<open>get\<close> returns a registration with that type, the stored metadata, and a properties
  map whose entries are exactly the entries of the type's map in the property metadata
  store before the registration (no entries when the store has no map for the type).
\<close>

theorem register_then_get:
  "getComponentMetadata s ct = Some m \<Longrightarrow>
     (\<exists>reg. get (register ct s) ct = Some reg \<and>
        componentType reg = ct \<and> metadata reg = m \<and>
        mapObjects (register ct s) (properties reg) =
          (case propertyMetadataMap s ct of Some r \<Rightarrow> mapObjects s r | None \<Rightarrow> []))"
  by (auto simp: register_def get_def getAllPropertyMetadata_def new_Map_def update_conv'
           split: option.splits prod.splits)

theorem register_then_get_witness:
  "getComponentMetadata declared Health = Some (the (componentMetadataMap declared Health)) \<and>
   (\<exists>reg. get (register Health declared) Health = Some reg \<and>
      componentType reg = Health \<and>
      metadata reg = the (componentMetadataMap declared Health) \<and>
      mapObjects (register Health declared) (properties reg) = [(''hp'', opts_hp)])"
proof -
  have some: "getComponentMetadata declared Health = Some (the (componentMetadataMap declared Health))"
    by (simp add: example_defs operation_defs)
  have props: "(case propertyMetadataMap declared Health of Some r \<Rightarrow> mapObjects declared r | None \<Rightarrow> [])
                 = [(''hp'', opts_hp)]"
    by (simp add: example_defs operation_defs)
  show ?thesis
    using register_then_get [OF some] some props by simp
qed

section \<open>Queries on the registry\<close>

lemma get_in_getAll: "get s ct = Some reg \<Longrightarrow> reg \<in> set (getAll s)"
  by (auto simp: get_def getAll_def dest!: map_of_SomeD intro: rev_image_eqI)

text \<open>Registering a type right after decorating it stores the decorator's metadata.\<close>

lemma get_register_decorated:
  "get (register ct (componentDecorator opts ct s)) ct =
     Some \<lparr>componentType = ct,
           metadata = the (componentMetadataMap (componentDecorator opts ct s) ct),
           properties = fst (getAllPropertyMetadata (componentDecorator opts ct s) ct)\<rparr>"
  by (auto simp: register_def get_def getComponentMetadata_def componentDecorator_def Let_def
                 update_conv' split: prod.splits)

lemma metadata_decorated:
  "componentMetadataMap (componentDecorator opts ct s) ct =
     Some \<lparr>displayName = ComponentMetadata.displayName opts,
           description = ComponentMetadata.description opts,
           icon = icon opts,
           category = ComponentMetadata.category opts,
           removable = Some (removable opts \<noteq> Some False),
           addable = Some (addable opts \<noteq> Some False),
           order = ComponentMetadata.order opts\<rparr>"
  by (simp add: componentDecorator_def Let_def)

lemma update_new_key:
  "k \<notin> fst ` set al \<Longrightarrow> AList.update k v al = al @ [(k, v)]"
  by (induction al) auto

text \<open>
  In a reachable state no type is registered twice: the association list is the
  \<open>registrations\<close> map, and its length is the map's \<open>size\<close>.
\<close>

lemma registrations_distinct:
  "reachable s \<Longrightarrow> distinct (map fst (registrations s))"
proof (induction rule: reachable.induct)
  case reach_initial
  then show ?case by (simp add: initial_def)
next
  case (reach_component s opts ct)
  then show ?case by (simp add: componentDecorator_def Let_def)
next
  case (reach_property s popts ct key)
  then show ?case
    by (auto simp: property_def new_Map_def Let_def split: option.splits prod.splits)
next
  case (reach_register s ct)
  then show ?case
    by (auto simp: register_def getAllPropertyMetadata_def new_Map_def distinct_update
             split: option.splits prod.splits)
next
  case (reach_clear s)
  then show ?case by (simp add: clear_def)
next
  case (reach_clearAllMetadata s)
  then show ?case by (simp add: clearAllMetadata_def)
qed

text \<open>Registering a type that is not yet registered puts it last in \<open>getAll\<close>.\<close>

lemma getAll_register_new:
  assumes "getComponentMetadata s ct = Some m" and "\<not> has s ct"
  shows "getAll (register ct s) =
           getAll s @ [\<lparr>componentType = ct, metadata = m,
                        properties = fst (getAllPropertyMetadata s ct)\<rparr>]"
proof -
  from assms(2) have "ct \<notin> fst ` set (registrations s)"
    by (simp add: has_def map_of_eq_None_iff)
  then show ?thesis
    using assms(1)
    by (auto simp: register_def getAll_def getAllPropertyMetadata_def new_Map_def update_new_key
             split: option.splits prod.splits)
qed

text \<open>
  C3, as the code has it. \<open>getByCategory\<close> returns exactly the stored registrations
  whose category is the given string, in the order of \<open>getAll\<close>, which is the order of
  registration: a type registered for the first time goes last. It does not sort them by
  \<open>order\<close>.
\<close>

theorem getByCategory_registration_order:
  "getByCategory s c =
     filter (\<lambda>reg. ComponentMetadata.category (metadata reg) = Some c) (getAll s) \<and>
   set (getByCategory s c) =
     {reg \<in> set (getAll s). ComponentMetadata.category (metadata reg) = Some c} \<and>
   subseq (getByCategory s c) (getAll s) \<and>
   (getComponentMetadata s ct = Some m \<and> \<not> has s ct \<longrightarrow>
      getByCategory (register ct s) c =
        getByCategory s c @
          (if ComponentMetadata.category m = Some c
           then [\<lparr>componentType = ct, metadata = m,
                   properties = fst (getAllPropertyMetadata s ct)\<rparr>]
           else []))"
  using getAll_register_new [of s ct m]
  by (auto simp: getByCategory_def)

theorem getByCategory_registration_order_witness:
  "getComponentMetadata (register Health declared) Mana =
     Some (the (componentMetadataMap declared Mana)) \<and>
   \<not> has (register Health declared) Mana \<and>
   ComponentMetadata.category (the (componentMetadataMap declared Mana)) = Some ''Gameplay'' \<and>
   map componentType (getByCategory (register Health declared) ''Gameplay'') = [Health] \<and>
   map componentType (getByCategory registered ''Gameplay'') = [Health, Mana]"
proof -
  let ?s = "register Health declared"
  let ?m = "the (componentMetadataMap declared Mana)"
  have md: "getComponentMetadata ?s Mana = Some ?m"
    by (simp add: example_defs operation_defs)
  have unreg: "\<not> has ?s Mana"
    by (simp add: has_def example_defs operation_defs)
  have cat: "ComponentMetadata.category ?m = Some ''Gameplay''"
    by (simp add: example_defs operation_defs)
  have before: "map componentType (getByCategory ?s ''Gameplay'') = [Health]"
    by (simp add: getByCategory_def getAll_def example_defs operation_defs)
  have "getByCategory (register Mana ?s) ''Gameplay'' =
          getByCategory ?s ''Gameplay'' @
            [\<lparr>componentType = Mana, metadata = ?m,
              properties = fst (getAllPropertyMetadata ?s Mana)\<rparr>]"
    using getByCategory_registration_order [of ?s "''Gameplay''" Mana ?m] md unreg cat
    by simp
  then have "map componentType (getByCategory registered ''Gameplay'') = [Health, Mana]"
    using before by (simp add: registered_def)
  then show ?thesis
    using md unreg cat before by blast
qed

text \<open>
  C3, as the claim has it, fails: \<open>Health\<close> (order 2) is registered before \<open>Mana\<close>
  (order 1), and \<open>getByCategory\<close> returns them in that order.
\<close>

theorem getByCategory_not_sorted:
  "map componentType (getByCategory registered ''Gameplay'') = [Health, Mana] \<and>
   map (ComponentMetadata.order \<circ> metadata) (getByCategory registered ''Gameplay'') =
     [Some 2, Some 1] \<and>
   \<not> sorted (map (order_or_999 \<circ> ComponentMetadata.order \<circ> metadata)
               (getByCategory registered ''Gameplay''))"
  by (simp add: getByCategory_def getAll_def example_defs operation_defs order_or_999_def)

text \<open>
  C6. \<open>getAddable\<close> is the subsequence of \<open>getAll\<close> of the registrations whose
  \<open>addable\<close> is not \<open>false\<close>. A type decorated and then registered is in it exactly
  when its options do not say \<open>addable: false\<close>: it is left out when they do, and it is
  in when \<open>addable\<close> is omitted or \<open>true\<close>.
\<close>

theorem getAddable_exact:
  "getAddable s = filter (\<lambda>reg. addable (metadata reg) \<noteq> Some False) (getAll s) \<and>
   subseq (getAddable s) (getAll s) \<and>
   (\<exists>reg. get (register ct (componentDecorator opts ct s)) ct = Some reg \<and>
      reg \<in> set (getAll (register ct (componentDecorator opts ct s))) \<and>
      (reg \<in> set (getAddable (register ct (componentDecorator opts ct s)))) =
        (addable opts \<noteq> Some False))"
proof -
  let ?s = "register ct (componentDecorator opts ct s)"
  obtain reg where reg: "get ?s ct = Some reg"
    and md: "metadata reg = the (componentMetadataMap (componentDecorator opts ct s) ct)"
    using get_register_decorated [of ct opts s] by simp
  have "reg \<in> set (getAll ?s)"
    using reg by (rule get_in_getAll)
  moreover have "addable (metadata reg) = Some (addable opts \<noteq> Some False)"
    using md by (simp add: metadata_decorated)
  ultimately show ?thesis
    using reg by (auto simp: getAddable_def)
qed

theorem getAddable_exact_witness:
  "map componentType (getAll registered) = [Health, Mana] \<and>
   map componentType (getAddable registered) = [Health] \<and>
   addable opts_Health = None \<and> addable opts_Mana = Some False \<and>
   subseq (getAddable registered) (getAll registered)"
proof -
  have "map componentType (getAll registered) = [Health, Mana]"
    by (simp add: getAll_def example_defs operation_defs)
  moreover have "map componentType (getAddable registered) = [Health]"
    by (simp add: getAddable_def getAll_def example_defs operation_defs)
  moreover have "addable opts_Health = None \<and> addable opts_Mana = Some False"
    by (simp add: opts_Health_def opts_Mana_def)
  ultimately show ?thesis
    using getAddable_exact [of registered Health opts_Health] by blast
qed

text \<open>
  C7. \<open>canRemoveComponent\<close> is false exactly when the type is registered with
  \<open>removable\<close> equal to \<open>false\<close>, and \<open>canAddComponent\<close> exactly when it is
  registered with \<open>addable\<close> equal to \<open>false\<close>; so both are true for an unregistered
  type and for a registered type whose flag is not set. For a type decorated and then
  registered, each is false exactly when the options say \<open>false\<close> for its flag.
\<close>

theorem can_remove_can_add:
  "canRemoveComponent s ct =
     (\<not> (\<exists>reg. get s ct = Some reg \<and> removable (metadata reg) = Some False)) \<and>
   canAddComponent s ct =
     (\<not> (\<exists>reg. get s ct = Some reg \<and> addable (metadata reg) = Some False)) \<and>
   canRemoveComponent (register ct (componentDecorator opts ct s)) ct =
     (removable opts \<noteq> Some False) \<and>
   canAddComponent (register ct (componentDecorator opts ct s)) ct =
     (addable opts \<noteq> Some False)"
  using get_register_decorated [of ct opts s]
  by (auto simp: canRemoveComponent_def canAddComponent_def getComponentRegistration_def
                 metadata_decorated split: option.splits)

theorem can_remove_can_add_witness:
  "get registered Tag = None \<and>
   canRemoveComponent registered Tag \<and> canAddComponent registered Tag \<and>
   \<not> canRemoveComponent registered Health \<and> canAddComponent registered Health \<and>
   canRemoveComponent registered Mana \<and> \<not> canAddComponent registered Mana"
proof -
  have tag: "get registered Tag = None"
    by (simp add: get_def example_defs operation_defs)
  have health: "get registered Health \<noteq> None"
    "\<forall>reg. get registered Health = Some reg \<longrightarrow>
       removable (metadata reg) = Some False \<and> addable (metadata reg) = Some True"
    by (simp_all add: get_def example_defs operation_defs)
  have mana: "get registered Mana \<noteq> None"
    "\<forall>reg. get registered Mana = Some reg \<longrightarrow>
       removable (metadata reg) = Some True \<and> addable (metadata reg) = Some False"
    by (simp_all add: get_def example_defs operation_defs)
  show ?thesis
    using can_remove_can_add [of registered Tag] can_remove_can_add [of registered Health]
      can_remove_can_add [of registered Mana] tag health mana
    by auto
qed

section \<open>Clearing the metadata store\<close>

text \<open>In a reachable state every type in the enumerable set has component metadata.\<close>

lemma enumerable_has_metadata:
  "reachable s \<Longrightarrow> ct \<in> set (globalComponentRegistry s) \<Longrightarrow> componentMetadataMap s ct \<noteq> None"
proof (induction arbitrary: ct rule: reachable.induct)
  case reach_initial
  then show ?case by (simp add: initial_def)
next
  case (reach_component s opts ct')
  then show ?case by (auto simp: componentDecorator_def Let_def Set_add_def split: if_splits)
next
  case (reach_property s popts ct' key)
  then show ?case
    by (auto simp: property_def new_Map_def Let_def split: option.splits prod.splits)
next
  case (reach_register s ct')
  then show ?case
    by (auto simp: register_def getAllPropertyMetadata_def getComponentMetadata_def
                   new_Map_def split: option.splits prod.splits)
next
  case (reach_clear s)
  then show ?case by (simp add: clear_def)
next
  case (reach_clearAllMetadata s)
  then show ?case by (simp add: clearAllMetadata_def)
qed

text \<open>
  C9. \<open>clearAllMetadata\<close> empties the enumerable set of declared types, so
  \<open>getAllRegisteredComponentTypes\<close> is empty afterwards, and leaves the component and
  property metadata of every type as they were: \<open>hasComponentMetadata\<close> and
  \<open>getComponentMetadata\<close> answer as before, and for a type that was in the enumerable
  set of a reachable state that answer is true, with its descriptor.
\<close>

theorem clearAllMetadata_frame:
  "getAllRegisteredComponentTypes (clearAllMetadata s) = [] \<and>
   componentMetadataMap (clearAllMetadata s) = componentMetadataMap s \<and>
   propertyMetadataMap (clearAllMetadata s) = propertyMetadataMap s \<and>
   mapObjects (clearAllMetadata s) = mapObjects s \<and>
   hasComponentMetadata (clearAllMetadata s) ct = hasComponentMetadata s ct \<and>
   getComponentMetadata (clearAllMetadata s) ct = getComponentMetadata s ct \<and>
   (reachable s \<and> ct \<in> set (getAllRegisteredComponentTypes s) \<longrightarrow>
      hasComponentMetadata (clearAllMetadata s) ct \<and>
      getComponentMetadata (clearAllMetadata s) ct = getComponentMetadata s ct \<and>
      getComponentMetadata s ct \<noteq> None)"
  using enumerable_has_metadata [of s ct]
  by (simp add: clearAllMetadata_def getAllRegisteredComponentTypes_def hasComponentMetadata_def
                getComponentMetadata_def)

theorem clearAllMetadata_frame_witness:
  "reachable declared \<and> Health \<in> set (getAllRegisteredComponentTypes declared) \<and>
   getAllRegisteredComponentTypes declared = [Health, Mana] \<and>
   getAllRegisteredComponentTypes (clearAllMetadata declared) = [] \<and>
   hasComponentMetadata (clearAllMetadata declared) Health \<and>
   getComponentMetadata (clearAllMetadata declared) Health = getComponentMetadata declared Health"
proof -
  have types: "getAllRegisteredComponentTypes declared = [Health, Mana]"
    by (simp add: getAllRegisteredComponentTypes_def example_defs operation_defs)
  then have "Health \<in> set (getAllRegisteredComponentTypes declared)"
    by simp
  then show ?thesis
    using clearAllMetadata_frame [of declared Health] reachable_declared types by blast
qed

section \<open>Statistics and the queries\<close>

lemma fold_statistics_step_fst:
  "fst (fold statistics_step regs (n, cats)) =
     n + length (filter (\<lambda>reg. addable (metadata reg) \<noteq> Some False) regs)"
  by (induction regs arbitrary: n cats)
     (auto simp: statistics_step_def Let_def split: option.splits)

text \<open>
  C10. The counts of \<open>getStatistics\<close> agree with the queries: \<open>totalComponents\<close> is
  the length of \<open>getAll\<close> and \<open>addableComponents\<close> is the length of \<open>getAddable\<close>.
\<close>

theorem statistics_agree_with_queries:
  "totalComponents (getStatistics s) = length (getAll s) \<and>
   addableComponents (getStatistics s) = length (getAddable s)"
  using fold_statistics_step_fst [of "map snd (registrations s)" 0 "[]"]
  by (simp add: getStatistics_def getAll_def getAddable_def case_prod_beta)

section \<open>Sorting and grouping\<close>

text \<open>With the comparator \<open>k a - k b\<close>, \<open>Array_sort\<close> is the library's stable sort by
  the key \<open>k\<close>.\<close>

lemma insert_by_key: "insert_by (\<lambda>a b. k a - k b) x ys = insort_key k x ys"
  by (induction ys) simp_all

lemma Array_sort_key: "Array_sort (\<lambda>a b. k a - k b) xs = sort_key k xs"
  by (induction xs) (simp_all add: Array_sort_def insert_by_key)

lemma stable_sort_of_sort_key: "stable_sort_of k xs (sort_key k xs)"
  by (simp add: stable_sort_of_def sort_key_stable)

lemma all_before_sorted:
  assumes "sorted (map k xs)"
    and "\<And>x. P x \<Longrightarrow> k x < c" and "\<And>y. Q y \<Longrightarrow> c \<le> k y"
  shows "all_before P Q xs"
  unfolding all_before_def
proof (intro allI impI)
  fix i j
  assume i: "i < length xs" and j: "j < length xs" and pq: "P (xs ! i) \<and> Q (xs ! j)"
  show "i < j"
  proof (rule ccontr)
    assume "\<not> i < j"
    then have "j \<le> i" by simp
    then have "map k xs ! j \<le> map k xs ! i"
      using assms(1) i by (simp add: sorted_iff_nth_mono)
    then have "k (xs ! j) \<le> k (xs ! i)"
      using i j by simp
    moreover have "k (xs ! i) < c" "c \<le> k (xs ! j)"
      using pq assms(2,3) by auto
    ultimately show False by simp
  qed
qed

lemma all_before_sorted':
  assumes "sorted (map k xs)"
    and "\<And>x. P x \<Longrightarrow> k x \<le> c" and "\<And>y. Q y \<Longrightarrow> c < k y"
  shows "all_before P Q xs"
  unfolding all_before_def
proof (intro allI impI)
  fix i j
  assume i: "i < length xs" and j: "j < length xs" and pq: "P (xs ! i) \<and> Q (xs ! j)"
  show "i < j"
  proof (rule ccontr)
    assume "\<not> i < j"
    then have "j \<le> i" by simp
    then have "map k xs ! j \<le> map k xs ! i"
      using assms(1) i by (simp add: sorted_iff_nth_mono)
    then have "k (xs ! j) \<le> k (xs ! i)"
      using i j by simp
    moreover have "k (xs ! i) \<le> c" "c < k (xs ! j)"
      using pq assms(2,3) by auto
    ultimately show False by simp
  qed
qed

lemma insort_key_cong_on:
  "f x = g x \<Longrightarrow> \<forall>y\<in>set ys. f y = g y \<Longrightarrow> insort_key f x ys = insort_key g x ys"
  by (induction ys) auto

lemma sort_key_cong_on:
  "\<forall>x\<in>set xs. f x = g x \<Longrightarrow> sort_key f xs = sort_key g xs"
proof (induction xs)
  case Nil
  then show ?case by simp
next
  case (Cons x xs)
  then have "sort_key f xs = sort_key g xs"
    by simp
  moreover have "insort_key f x (sort_key g xs) = insort_key g x (sort_key g xs)"
    using Cons.prems by (intro insort_key_cong_on) simp_all
  ultimately show ?case by simp
qed

text \<open>
  On entries none of which has the order 0, \<open>order || 999\<close> is the order with a
  missing one taken as 999, and the sort of the helpers gives an ordered output.
\<close>

lemma ordered_output_Array_sort:
  assumes "\<forall>x\<in>set xs. ord x \<noteq> Some 0"
  shows "ordered_output ord xs
           (Array_sort (\<lambda>a b. order_or_999 (ord a) - order_or_999 (ord b)) xs)"
proof -
  let ?j = "\<lambda>x. order_or_999 (ord x)"
  let ?k = "\<lambda>x. effective_order (ord x)"
  have "\<forall>x\<in>set xs. ?j x = ?k x"
    using assms by (auto simp: order_or_999_def effective_order_def split: option.splits)
  then have "sort_key ?j xs = sort_key ?k xs"
    by (rule sort_key_cong_on)
  then have eq: "Array_sort (\<lambda>a b. ?j a - ?j b) xs = sort_key ?k xs"
    by (simp add: Array_sort_key)
  have sorted: "sorted (map ?k (sort_key ?k xs))"
    by (rule sorted_sort_key)
  have "all_before (\<lambda>x. explicit_below_999 (ord x)) (\<lambda>x. ord x = None) (sort_key ?k xs)"
    by (rule all_before_sorted [OF sorted, where c = 999])
       (auto simp: explicit_below_999_def effective_order_def split: option.splits)
  moreover have "all_before (\<lambda>x. ord x = None) (\<lambda>x. explicit_above_999 (ord x)) (sort_key ?k xs)"
    by (rule all_before_sorted' [OF sorted, where c = 999])
       (auto simp: explicit_above_999_def effective_order_def split: option.splits)
  ultimately show ?thesis
    unfolding ordered_output_def eq using stable_sort_of_sort_key [of ?k xs] by simp
qed

lemma push_grouped_ok:
  assumes "c \<notin> set Object_prototype_keys"
  shows "\<exists>g1. push_grouped c x g0 = Inr g1 \<and>
           map_of g1 = (map_of g0)(c \<mapsto> (case map_of g0 c of None \<Rightarrow> [x] | Some ys \<Rightarrow> ys @ [x]))"
  using assms
  by (auto simp: push_grouped_def update_conv' map_add_def fun_eq_iff split: option.splits)

lemma group_loop_ok:
  assumes "\<forall>x\<in>set xs. key x \<notin> set Object_prototype_keys"
  shows "\<exists>g. group_loop key xs g0 = Inr g \<and>
           (\<forall>c. map_of g c =
              (case map_of g0 c of
                 Some ys \<Rightarrow> Some (ys @ filter (\<lambda>x. key x = c) xs)
               | None \<Rightarrow> if filter (\<lambda>x. key x = c) xs = [] then None
                         else Some (filter (\<lambda>x. key x = c) xs)))"
  using assms
proof (induction xs arbitrary: g0)
  case Nil
  then show ?case by (auto split: option.splits)
next
  case (Cons x xs)
  from Cons.prems have kx: "key x \<notin> set Object_prototype_keys" by simp
  from push_grouped_ok [OF kx, of x g0] obtain g1 where
    g1: "push_grouped (key x) x g0 = Inr g1"
    and m1: "map_of g1 = (map_of g0)(key x \<mapsto> (case map_of g0 (key x) of None \<Rightarrow> [x] | Some ys \<Rightarrow> ys @ [x]))"
    by blast
  from Cons.prems have "\<forall>y\<in>set xs. key y \<notin> set Object_prototype_keys" by simp
  from Cons.IH [OF this, of g1] obtain g where
    g: "group_loop key xs g1 = Inr g"
    and m: "\<forall>c. map_of g c =
              (case map_of g1 c of
                 Some ys \<Rightarrow> Some (ys @ filter (\<lambda>x. key x = c) xs)
               | None \<Rightarrow> if filter (\<lambda>x. key x = c) xs = [] then None
                         else Some (filter (\<lambda>x. key x = c) xs))"
    by blast
  have "group_loop key (x # xs) g0 = Inr g"
    using g1 g by simp
  moreover have "map_of g c =
              (case map_of g0 c of
                 Some ys \<Rightarrow> Some (ys @ filter (\<lambda>x. key x = c) (x # xs))
               | None \<Rightarrow> if filter (\<lambda>x. key x = c) (x # xs) = [] then None
                         else Some (filter (\<lambda>x. key x = c) (x # xs)))" for c
    using m [rule_format, of c] m1 by (auto split: option.splits)
  ultimately show ?case by blast
qed

lemma error_is_TypeError: "(e :: error) = TypeError"
  by (cases e)

lemma group_loop_error:
  assumes "\<exists>x\<in>set xs. key x \<in> set Object_prototype_keys"
  shows "group_loop key xs g0 = Inl TypeError"
  using assms
proof (induction xs arbitrary: g0)
  case Nil
  then show ?case by simp
next
  case (Cons x xs)
  show ?case
  proof (cases "key x \<in> set Object_prototype_keys")
    case True
    then show ?thesis by (simp add: push_grouped_def)
  next
    case False
    with Cons.prems have "\<exists>y\<in>set xs. key y \<in> set Object_prototype_keys" by auto
    from Cons.IH [OF this] show ?thesis
      by (simp add: error_is_TypeError split: sum.splits)
  qed
qed

text \<open>
  Grouping, then sorting each group: the helper returns exactly when no key is the name
  of a member of \<open>Object.prototype\<close>, and then the group of a key is the sorted
  list of the elements with that key, absent when there is none.
\<close>

lemma grouped_sorted:
  assumes "(case group_loop key xs [] of
              Inl e \<Rightarrow> Inl e
            | Inr grouped \<Rightarrow> Inr (map (\<lambda>(c, ys). (c, f ys)) grouped)) = Inr g"
  shows "(\<forall>x\<in>set xs. key x \<notin> set Object_prototype_keys) \<and>
         (\<forall>c. map_of g c =
            (if filter (\<lambda>x. key x = c) xs = [] then None
             else Some (f (filter (\<lambda>x. key x = c) xs))))"
proof -
  have ok: "\<forall>x\<in>set xs. key x \<notin> set Object_prototype_keys"
  proof (rule ccontr)
    assume "\<not> ?thesis"
    then have "group_loop key xs [] = Inl TypeError"
      by (intro group_loop_error) auto
    with assms show False by simp
  qed
  from group_loop_ok [OF ok, of "[]"] obtain g' where
    g': "group_loop key xs [] = Inr g'"
    and m: "\<forall>c. map_of g' c =
               (if filter (\<lambda>x. key x = c) xs = [] then None
                else Some (filter (\<lambda>x. key x = c) xs))"
    by auto
  from assms g' have "g = map (\<lambda>(c, ys). (c, f ys)) g'" by simp
  then have "map_of g c = map_option f (map_of g' c)" for c
    by (simp add: map_of_map)
  with m ok show ?thesis by simp
qed

lemma grouped_sorted_total:
  assumes "\<forall>x\<in>set xs. key x \<notin> set Object_prototype_keys"
  shows "\<exists>g. (case group_loop key xs [] of
              Inl e \<Rightarrow> Inl e
            | Inr grouped \<Rightarrow> Inr (map (\<lambda>(c, ys). (c, f ys)) grouped)) = Inr g"
  using group_loop_ok [OF assms, of "[]"] by auto

section \<open>Default labels of the grouping helpers\<close>

lemma label_not_inherited:
  "label_Uncategorized \<notin> set Object_prototype_keys" "label_General \<notin> set Object_prototype_keys"
  by (simp_all add: label_defs Object_prototype_keys_def)

lemma string_or_safe:
  "safe_category c \<Longrightarrow> d \<notin> set Object_prototype_keys \<Longrightarrow> string_or c d \<notin> set Object_prototype_keys"
  by (auto simp: safe_category_def string_or_def split: option.splits)

text \<open>
  C4, as the code has it. When no category of a registration is the name of a member of
  \<open>Object.prototype\<close>, \<open>getComponentsByCategory\<close> returns, and every registration
  without a category is in the group of the key \<open>label_Uncategorized\<close>, which is
  \<open>Uncategorized\<close> followed by a space and the Chinese label. Likewise
  \<open>getPropertiesByCategory\<close> returns and puts every property without a category in the
  group of the key \<open>label_General\<close>, which is \<open>General\<close> followed by a space and the
  Chinese label. The two keys differ.
\<close>

theorem default_group_labels:
  "((\<forall>reg\<in>set (getAll s). safe_category (ComponentMetadata.category (metadata reg))) \<longrightarrow>
      (\<exists>grouped. getComponentsByCategory s = Inr grouped \<and>
         (\<forall>reg\<in>set (getAll s). ComponentMetadata.category (metadata reg) = None \<longrightarrow>
            (\<exists>regs. map_of grouped label_Uncategorized = Some regs \<and> reg \<in> set regs)))) \<and>
   ((\<forall>entry\<in>set (ComponentUtils_getAllPropertyMetadata s ct).
        safe_category (PropertyMetadata.category (snd entry))) \<longrightarrow>
      (\<exists>grouped. getPropertiesByCategory s ct = Inr grouped \<and>
         (\<forall>entry\<in>set (ComponentUtils_getAllPropertyMetadata s ct).
            PropertyMetadata.category (snd entry) = None \<longrightarrow>
            (\<exists>entries. map_of grouped label_General = Some entries \<and> entry \<in> set entries)))) \<and>
   label_Uncategorized \<noteq> label_General"
proof (intro conjI impI)
  let ?key = "\<lambda>reg :: ComponentRegistration.
                string_or (ComponentMetadata.category (metadata reg)) label_Uncategorized"
  let ?f = "Array_sort (\<lambda>a b :: ComponentRegistration.
                          order_or_999 (ComponentMetadata.order (metadata a)) -
                              order_or_999 (ComponentMetadata.order (metadata b)))"
  assume safe: "\<forall>reg\<in>set (getAll s). safe_category (ComponentMetadata.category (metadata reg))"
  then have ok: "\<forall>reg\<in>set (getAll s). ?key reg \<notin> set Object_prototype_keys"
    by (simp add: string_or_safe label_not_inherited)
  from grouped_sorted_total [OF ok, where f = ?f] obtain grouped where
    g: "getComponentsByCategory s = Inr grouped"
    by (auto simp: getComponentsByCategory_def)
  then have m: "map_of grouped c =
            (if filter (\<lambda>x. ?key x = c) (getAll s) = [] then None
             else Some (?f (filter (\<lambda>x. ?key x = c) (getAll s))))" for c
    using grouped_sorted [where key = ?key and xs = "getAll s" and f = ?f and g = grouped]
    by (simp add: getComponentsByCategory_def)
  have "\<exists>regs. map_of grouped label_Uncategorized = Some regs \<and> reg \<in> set regs"
    if "reg \<in> set (getAll s)" "ComponentMetadata.category (metadata reg) = None" for reg
  proof -
    let ?group = "filter (\<lambda>x. ?key x = label_Uncategorized) (getAll s)"
    from that have mem: "reg \<in> set ?group"
      by (simp add: string_or_def)
    have "?group \<noteq> []"
    proof
      assume e: "?group = []"
      from mem show False unfolding e by simp
    qed
    then have "map_of grouped label_Uncategorized = Some (?f ?group)"
      using m [of label_Uncategorized] by simp
    moreover have "reg \<in> set (?f ?group)"
      using mem by (simp only: Array_sort_key set_sort)
    ultimately show ?thesis by blast
  qed
  with g show "\<exists>grouped. getComponentsByCategory s = Inr grouped \<and>
         (\<forall>reg\<in>set (getAll s). ComponentMetadata.category (metadata reg) = None \<longrightarrow>
            (\<exists>regs. map_of grouped label_Uncategorized = Some regs \<and> reg \<in> set regs))"
    by blast
next
  let ?key = "\<lambda>entry :: string \<times> PropertyMetadata.
                string_or (PropertyMetadata.category (snd entry)) label_General"
  let ?f = "Array_sort (\<lambda>a b :: string \<times> PropertyMetadata.
                          order_or_999 (PropertyMetadata.order (snd a)) -
                              order_or_999 (PropertyMetadata.order (snd b)))"
  let ?xs = "ComponentUtils_getAllPropertyMetadata s ct"
  assume safe: "\<forall>entry\<in>set ?xs. safe_category (PropertyMetadata.category (snd entry))"
  then have ok: "\<forall>entry\<in>set ?xs. ?key entry \<notin> set Object_prototype_keys"
    by (simp add: string_or_safe label_not_inherited)
  from grouped_sorted_total [OF ok, where f = ?f] obtain grouped where
    g: "getPropertiesByCategory s ct = Inr grouped"
    by (auto simp: getPropertiesByCategory_def)
  then have m: "map_of grouped c =
            (if filter (\<lambda>x. ?key x = c) ?xs = [] then None
             else Some (?f (filter (\<lambda>x. ?key x = c) ?xs)))" for c
    using grouped_sorted [where key = ?key and xs = ?xs and f = ?f and g = grouped]
    by (simp add: getPropertiesByCategory_def)
  have "\<exists>entries. map_of grouped label_General = Some entries \<and> entry \<in> set entries"
    if "entry \<in> set ?xs" "PropertyMetadata.category (snd entry) = None" for entry
  proof -
    let ?group = "filter (\<lambda>x. ?key x = label_General) ?xs"
    from that have mem: "entry \<in> set ?group"
      by (simp add: string_or_def)
    have "?group \<noteq> []"
    proof
      assume e: "?group = []"
      from mem show False unfolding e by simp
    qed
    then have "map_of grouped label_General = Some (?f ?group)"
      using m [of label_General] by simp
    moreover have "entry \<in> set (?f ?group)"
      using mem by (simp only: Array_sort_key set_sort)
    ultimately show ?thesis by blast
  qed
  with g show "\<exists>grouped. getPropertiesByCategory s ct = Inr grouped \<and>
         (\<forall>entry\<in>set ?xs. PropertyMetadata.category (snd entry) = None \<longrightarrow>
            (\<exists>entries. map_of grouped label_General = Some entries \<and> entry \<in> set entries))"
    by blast
next
  show "label_Uncategorized \<noteq> label_General"
    by (simp add: label_defs)
qed

theorem default_group_labels_witness:
  "map (safe_category \<circ> ComponentMetadata.category \<circ> metadata) (getAll unordered) =
     [True, True, True] \<and>
   map (safe_category \<circ> PropertyMetadata.category \<circ> snd)
     (ComponentUtils_getAllPropertyMetadata unordered Plain) = [True, True] \<and>
   map componentType (getAll unordered) = [Plain, Late, Early] \<and>
   map fst (ComponentUtils_getAllPropertyMetadata unordered Plain) = [''x'', ''y''] \<and>
   (\<exists>grouped regs. getComponentsByCategory unordered = Inr grouped \<and>
      map_of grouped label_Uncategorized = Some regs \<and>
      set (getAll unordered) \<subseteq> set regs) \<and>
   (\<exists>grouped entries. getPropertiesByCategory unordered Plain = Inr grouped \<and>
      map_of grouped label_General = Some entries \<and>
      set (ComponentUtils_getAllPropertyMetadata unordered Plain) \<subseteq> set entries)"
proof -
  have c: "map (ComponentMetadata.category \<circ> metadata) (getAll unordered) = [None, None, None]"
    by (simp add: helper_defs unordered_defs operation_defs)
  have p: "map (PropertyMetadata.category \<circ> snd)
             (ComponentUtils_getAllPropertyMetadata unordered Plain) = [None, None]"
    by (simp add: helper_defs unordered_defs operation_defs)
  have all: "map componentType (getAll unordered) = [Plain, Late, Early]"
    by (simp add: helper_defs unordered_defs operation_defs)
  have props: "map fst (ComponentUtils_getAllPropertyMetadata unordered Plain) = [''x'', ''y'']"
    by (simp add: helper_defs unordered_defs operation_defs)
  have cn: "\<forall>reg\<in>set (getAll unordered). ComponentMetadata.category (metadata reg) = None"
    using c by (auto simp: map_eq_Cons_conv)
  have pn: "\<forall>entry\<in>set (ComponentUtils_getAllPropertyMetadata unordered Plain).
              PropertyMetadata.category (snd entry) = None"
    using p by (auto simp: map_eq_Cons_conv)
  have sc: "map (safe_category \<circ> ComponentMetadata.category \<circ> metadata) (getAll unordered) =
              [True, True, True]"
    using c by (auto simp: map_eq_Cons_conv safe_category_def)
  have sp: "map (safe_category \<circ> PropertyMetadata.category \<circ> snd)
     (ComponentUtils_getAllPropertyMetadata unordered Plain) = [True, True]"
    using p by (auto simp: map_eq_Cons_conv safe_category_def)
  have sc': "\<forall>reg\<in>set (getAll unordered). safe_category (ComponentMetadata.category (metadata reg))"
    using cn by (simp add: safe_category_def)
  have sp': "\<forall>entry\<in>set (ComponentUtils_getAllPropertyMetadata unordered Plain).
      safe_category (PropertyMetadata.category (snd entry))"
    using pn by (simp add: safe_category_def)
  note labels = default_group_labels [of unordered Plain]
  from labels sc' obtain g1 where
    g1: "getComponentsByCategory unordered = Inr g1"
    and m1: "\<forall>reg\<in>set (getAll unordered). ComponentMetadata.category (metadata reg) = None \<longrightarrow>
            (\<exists>regs. map_of g1 label_Uncategorized = Some regs \<and> reg \<in> set regs)"
    by blast
  from labels sp' obtain g2 where
    g2: "getPropertiesByCategory unordered Plain = Inr g2"
    and m2: "\<forall>entry\<in>set (ComponentUtils_getAllPropertyMetadata unordered Plain).
            PropertyMetadata.category (snd entry) = None \<longrightarrow>
            (\<exists>entries. map_of g2 label_General = Some entries \<and> entry \<in> set entries)"
    by blast
  from all have "getAll unordered \<noteq> []" by auto
  then obtain reg0 where "reg0 \<in> set (getAll unordered)"
    by (cases "getAll unordered") auto
  with m1 cn obtain regs where regs: "map_of g1 label_Uncategorized = Some regs"
    by blast
  with m1 cn have sub1: "set (getAll unordered) \<subseteq> set regs"
    by fastforce
  from props have "ComponentUtils_getAllPropertyMetadata unordered Plain \<noteq> []" by auto
  then obtain e0 where "e0 \<in> set (ComponentUtils_getAllPropertyMetadata unordered Plain)"
    by (cases "ComponentUtils_getAllPropertyMetadata unordered Plain") auto
  with m2 pn obtain entries where entries: "map_of g2 label_General = Some entries"
    by blast
  with m2 pn have sub2: "set (ComponentUtils_getAllPropertyMetadata unordered Plain) \<subseteq> set entries"
    by fastforce
  show ?thesis
    by (intro conjI exI) (rule sc sp all props g1 g2 regs entries sub1 sub2)+
qed

text \<open>
  C4, as the claim has it, fails: the keys under which the uncategorized registrations
  and properties are grouped are not the plain strings \<open>Uncategorized\<close> and
  \<open>General\<close>.
\<close>

theorem default_labels_not_plain:
  "map_sum id (map fst) (getComponentsByCategory unordered) = Inr [label_Uncategorized] \<and>
   label_Uncategorized \<noteq> ''Uncategorized'' \<and>
   map_sum id (map fst) (getPropertiesByCategory unordered Plain) = Inr [label_General] \<and>
   label_General \<noteq> ''General''"
  by (simp add: getComponentsByCategory_def getPropertiesByCategory_def getAll_def
        ComponentUtils_getAllPropertyMetadata_def getComponentRegistration_def get_def
        push_grouped_def string_or_def Object_prototype_keys_def
        unordered_defs operation_defs label_defs)

section \<open>Order of the sorted outputs\<close>

text \<open>
  C5, as the code has it. Where no entry has the order 0, the output of
  \<open>getAvailableComponentTypes\<close>, every group that \<open>getComponentsByCategory\<close>
  returns and every group that \<open>getPropertiesByCategory\<close> returns is a stable sort of
  its input by order, ascending, with a missing order taken as 999: entries of equal
  order (the default included) keep their prior relative order, every entry with an
  explicit order below 999 stands before every entry without an order, and every entry
  with an explicit order above 999 stands after them.
\<close>

theorem sorted_outputs_stable:
  "((\<forall>reg\<in>set (getAddable s). ComponentMetadata.order (metadata reg) \<noteq> Some 0) \<longrightarrow>
      ordered_output (\<lambda>a. ComponentMetadata.order (metadata (snd a)))
        (map (\<lambda>registration. (componentType registration, registration)) (getAddable s))
        (getAvailableComponentTypes s)) \<and>
   (\<forall>grouped c regs.
      getComponentsByCategory s = Inr grouped \<and> map_of grouped c = Some regs \<and>
      (\<forall>reg\<in>set regs. ComponentMetadata.order (metadata reg) \<noteq> Some 0) \<longrightarrow>
      ordered_output (\<lambda>reg. ComponentMetadata.order (metadata reg))
        (filter (\<lambda>reg. string_or (ComponentMetadata.category (metadata reg)) label_Uncategorized = c)
           (getAll s))
        regs) \<and>
   (\<forall>grouped c entries.
      getPropertiesByCategory s ct = Inr grouped \<and> map_of grouped c = Some entries \<and>
      (\<forall>entry\<in>set entries. PropertyMetadata.order (snd entry) \<noteq> Some 0) \<longrightarrow>
      ordered_output (\<lambda>entry. PropertyMetadata.order (snd entry))
        (filter (\<lambda>entry. string_or (PropertyMetadata.category (snd entry)) label_General = c)
           (ComponentUtils_getAllPropertyMetadata s ct))
        entries)"
proof (intro conjI allI impI)
  assume "\<forall>reg\<in>set (getAddable s). ComponentMetadata.order (metadata reg) \<noteq> Some 0"
  then have "\<forall>a\<in>set (map (\<lambda>registration. (componentType registration, registration))
                        (getAddable s)).
               ComponentMetadata.order (metadata (snd a)) \<noteq> Some 0"
    by simp
  then show "ordered_output (\<lambda>a. ComponentMetadata.order (metadata (snd a)))
     (map (\<lambda>registration. (componentType registration, registration)) (getAddable s))
     (getAvailableComponentTypes s)"
    unfolding getAvailableComponentTypes_def by (rule ordered_output_Array_sort)
next
  fix grouped c regs
  let ?key = "\<lambda>reg :: ComponentRegistration.
                string_or (ComponentMetadata.category (metadata reg)) label_Uncategorized"
  let ?ord = "\<lambda>reg :: ComponentRegistration. ComponentMetadata.order (metadata reg)"
  let ?f = "Array_sort (\<lambda>a b. order_or_999 (?ord a) - order_or_999 (?ord b))"
  let ?group = "filter (\<lambda>x. ?key x = c) (getAll s)"
  assume a: "getComponentsByCategory s = Inr grouped \<and> map_of grouped c = Some regs \<and>
             (\<forall>reg\<in>set regs. ?ord reg \<noteq> Some 0)"
  then have "map_of grouped c = (if ?group = [] then None else Some (?f ?group))"
    using grouped_sorted [where key = ?key and xs = "getAll s" and f = ?f and g = grouped]
    by (simp add: getComponentsByCategory_def)
  with a have regs: "regs = ?f ?group"
    by (simp split: if_splits)
  then have same: "set regs = set ?group"
    by (simp only: Array_sort_key set_sort)
  from a have nz: "\<forall>reg\<in>set regs. ?ord reg \<noteq> Some 0"
    by blast
  have "\<forall>reg\<in>set ?group. ?ord reg \<noteq> Some 0"
    unfolding same [symmetric] by (rule nz)
  then have "ordered_output ?ord ?group (?f ?group)"
    by (rule ordered_output_Array_sort)
  then show "ordered_output ?ord (filter (\<lambda>reg. ?key reg = c) (getAll s)) regs"
    by (simp only: regs)
next
  fix grouped c entries
  let ?key = "\<lambda>entry :: string \<times> PropertyMetadata.
                string_or (PropertyMetadata.category (snd entry)) label_General"
  let ?ord = "\<lambda>entry :: string \<times> PropertyMetadata. PropertyMetadata.order (snd entry)"
  let ?f = "Array_sort (\<lambda>a b. order_or_999 (?ord a) - order_or_999 (?ord b))"
  let ?xs = "ComponentUtils_getAllPropertyMetadata s ct"
  let ?group = "filter (\<lambda>x. ?key x = c) ?xs"
  assume a: "getPropertiesByCategory s ct = Inr grouped \<and> map_of grouped c = Some entries \<and>
             (\<forall>entry\<in>set entries. ?ord entry \<noteq> Some 0)"
  then have "map_of grouped c = (if ?group = [] then None else Some (?f ?group))"
    using grouped_sorted [where key = ?key and xs = ?xs and f = ?f and g = grouped]
    by (simp add: getPropertiesByCategory_def)
  with a have entries: "entries = ?f ?group"
    by (simp split: if_splits)
  then have same: "set entries = set ?group"
    by (simp only: Array_sort_key set_sort)
  from a have nz: "\<forall>entry\<in>set entries. ?ord entry \<noteq> Some 0"
    by blast
  have "\<forall>entry\<in>set ?group. ?ord entry \<noteq> Some 0"
    unfolding same [symmetric] by (rule nz)
  then have "ordered_output ?ord ?group (?f ?group)"
    by (rule ordered_output_Array_sort)
  then show "ordered_output ?ord (filter (\<lambda>entry. ?key entry = c) ?xs) entries"
    by (simp only: entries)
qed

theorem sorted_outputs_stable_witness:
  "map (ComponentMetadata.order \<circ> metadata) (getAddable unordered) = [None, Some 1000, Some 5] \<and>
   map fst (getAvailableComponentTypes unordered) = [Early, Plain, Late] \<and>
   mset (getAvailableComponentTypes unordered) =
     mset (map (\<lambda>registration. (componentType registration, registration)) (getAddable unordered)) \<and>
   sorted (map (effective_order \<circ> ComponentMetadata.order \<circ> metadata \<circ> snd)
             (getAvailableComponentTypes unordered)) \<and>
   (\<exists>grouped regs.
      getComponentsByCategory unordered = Inr grouped \<and>
      map_of grouped label_Uncategorized = Some regs \<and>
      map componentType regs = [Early, Plain, Late] \<and>
      map (ComponentMetadata.order \<circ> metadata) regs = [Some 5, None, Some 1000] \<and>
      sorted (map (effective_order \<circ> ComponentMetadata.order \<circ> metadata) regs)) \<and>
   (\<exists>grouped entries.
      getPropertiesByCategory unordered Plain = Inr grouped \<and>
      map_of grouped label_General = Some entries \<and>
      map fst entries = [''x'', ''y''] \<and>
      map (PropertyMetadata.order \<circ> snd) entries = [None, Some 1000] \<and>
      sorted (map (effective_order \<circ> PropertyMetadata.order \<circ> snd) entries))"
proof -
  have addable: "map (ComponentMetadata.order \<circ> metadata) (getAddable unordered) =
                   [None, Some 1000, Some 5]"
    by (simp add: helper_defs unordered_defs operation_defs)
  then have nz: "\<forall>reg\<in>set (getAddable unordered). ComponentMetadata.order (metadata reg) \<noteq> Some 0"
    by (auto simp: map_eq_Cons_conv)
  have available: "map fst (getAvailableComponentTypes unordered) = [Early, Plain, Late]"
    by (simp add: helper_defs unordered_defs operation_defs)
  have components: "\<exists>grouped regs.
      getComponentsByCategory unordered = Inr grouped \<and>
      map_of grouped label_Uncategorized = Some regs \<and>
      map componentType regs = [Early, Plain, Late] \<and>
      map (ComponentMetadata.order \<circ> metadata) regs = [Some 5, None, Some 1000]"
    by (simp add: helper_defs unordered_defs operation_defs label_defs)
  have properties: "\<exists>grouped entries.
      getPropertiesByCategory unordered Plain = Inr grouped \<and>
      map_of grouped label_General = Some entries \<and>
      map fst entries = [''x'', ''y''] \<and>
      map (PropertyMetadata.order \<circ> snd) entries = [None, Some 1000]"
    by (simp add: helper_defs unordered_defs operation_defs label_defs)
  note sorted = sorted_outputs_stable [of unordered Plain]
  from components obtain g1 regs where
    g1: "getComponentsByCategory unordered = Inr g1"
      "map_of g1 label_Uncategorized = Some regs"
      "map componentType regs = [Early, Plain, Late]"
      "map (ComponentMetadata.order \<circ> metadata) regs = [Some 5, None, Some 1000]"
    by auto
  from properties obtain g2 entries where
    g2: "getPropertiesByCategory unordered Plain = Inr g2"
      "map_of g2 label_General = Some entries"
      "map fst entries = [''x'', ''y'']"
      "map (PropertyMetadata.order \<circ> snd) entries = [None, Some 1000]"
    by auto
  from g1(4) have nz1: "\<forall>reg\<in>set regs. ComponentMetadata.order (metadata reg) \<noteq> Some 0"
    by (auto simp: map_eq_Cons_conv)
  from g2(4) have nz2: "\<forall>entry\<in>set entries. PropertyMetadata.order (snd entry) \<noteq> Some 0"
    by (auto simp: map_eq_Cons_conv)
  have o1: "sorted (map (effective_order \<circ> ComponentMetadata.order \<circ> metadata) regs)"
    using sorted [THEN conjunct2, THEN conjunct1, rule_format, of g1 label_Uncategorized regs]
      g1(1,2) nz1
    by (simp add: ordered_output_def stable_sort_of_def comp_def)
  have o2: "sorted (map (effective_order \<circ> PropertyMetadata.order \<circ> snd) entries)"
    using sorted [THEN conjunct2, THEN conjunct2, rule_format, of g2 label_General entries]
      g2(1,2) nz2
    by (simp add: ordered_output_def stable_sort_of_def comp_def)
  have o3: "mset (getAvailableComponentTypes unordered) =
     mset (map (\<lambda>registration. (componentType registration, registration)) (getAddable unordered))"
    "sorted (map (effective_order \<circ> ComponentMetadata.order \<circ> metadata \<circ> snd)
             (getAvailableComponentTypes unordered))"
    using sorted [THEN conjunct1, THEN mp, OF nz]
    by (simp_all add: ordered_output_def stable_sort_of_def comp_def)
  show ?thesis
    by (intro conjI exI) (rule addable available o3 g1 g2 o1 o2)+
qed

text \<open>
  C5, as the claim has it, fails: \<open>Late\<close> has the explicit order 1000 and stands after
  \<open>Plain\<close>, which has no order.
\<close>

theorem explicit_order_after_missing:
  "map fst (getAvailableComponentTypes unordered) = [Early, Plain, Late] \<and>
   map (ComponentMetadata.order \<circ> metadata \<circ> snd) (getAvailableComponentTypes unordered) =
     [Some 5, None, Some 1000]"
  by (simp add: helper_defs unordered_defs operation_defs)

section \<open>The category tally of the statistics\<close>

lemma statistics_step_snd:
  "snd (statistics_step reg (n, cats)) =
     (case ComponentMetadata.category (metadata reg) of
        None \<Rightarrow> cats
      | Some c \<Rightarrow> if c = [] then cats else count_category c cats)"
  by (simp add: statistics_step_def Let_def split: option.splits)

lemma map_of_count_category:
  "map_of (count_category c' cats) c =
     (if c = c' then
        (case map_of cats c' of
           Some (Count n) \<Rightarrow> Some (Count (n + 1))
         | Some Text \<Rightarrow> Some Text
         | None \<Rightarrow> if c' = ''__proto__'' then None
                   else if c' \<in> set Object_prototype_keys then Some Text else Some (Count 1))
      else map_of cats c)"
  by (auto simp: count_category_def update_conv' map_add_def split: option.splits tally.splits)

lemma statistics_tally:
  "map_of (snd (fold statistics_step regs (0, []))) c =
     (let n = length (filter (\<lambda>reg. ComponentMetadata.category (metadata reg) = Some c) regs)
      in if n = 0 \<or> c = [] \<or> c = ''__proto__'' then None
         else if c \<in> set Object_prototype_keys then Some Text else Some (Count n))"
proof (induction regs arbitrary: c rule: rev_induct)
  case Nil
  then show ?case by simp
next
  case (snoc x xs)
  obtain n cats where acc: "fold statistics_step xs (0, []) = (n, cats)"
    by (cases "fold statistics_step xs (0, [])")
  have IH: "map_of cats c =
     (let n = length (filter (\<lambda>reg. ComponentMetadata.category (metadata reg) = Some c) xs)
      in if n = 0 \<or> c = [] \<or> c = ''__proto__'' then None
         else if c \<in> set Object_prototype_keys then Some Text else Some (Count n))" for c
    using snoc.IH [of c] acc by simp
  have step: "snd (fold statistics_step (xs @ [x]) (0, [])) =
     (case ComponentMetadata.category (metadata x) of
        None \<Rightarrow> cats
      | Some c \<Rightarrow> if c = [] then cats else count_category c cats)"
    using acc by (simp add: statistics_step_snd)
  show ?case
  proof (cases "ComponentMetadata.category (metadata x)")
    case None
    then show ?thesis using step IH [of c] by simp
  next
    case (Some c')
    show ?thesis
    proof (cases "c' = []")
      case True
      then show ?thesis using step Some IH [of c] by (auto simp: Let_def)
    next
      case False
      then have "map_of (snd (fold statistics_step (xs @ [x]) (0, []))) c =
                   map_of (count_category c' cats) c"
        using step Some by simp
      then show ?thesis
        using Some False IH [of c] IH [of c']
        by (auto simp: map_of_count_category Let_def split: if_splits)
    qed
  qed
qed

lemma statistics_categories_ignore_count:
  "snd (fold statistics_step regs (n, cats)) = snd (fold statistics_step regs (0, cats))"
proof (induction regs arbitrary: n cats)
  case Nil
  then show ?case by simp
next
  case (Cons x xs)
  obtain n1 c1 where s1: "statistics_step x (n, cats) = (n1, c1)"
    by (cases "statistics_step x (n, cats)")
  obtain n2 c2 where s2: "statistics_step x (0, cats) = (n2, c2)"
    by (cases "statistics_step x (0, cats)")
  have "c1 = c2"
    using s1 s2 statistics_step_snd [of x n cats] statistics_step_snd [of x 0 cats] by simp
  then show ?case
    using s1 s2 Cons.IH [of n1 c1] Cons.IH [of n2 c2] by simp
qed

lemma statistics_categories_filter:
  "snd (fold statistics_step regs (n, cats)) =
     snd (fold statistics_step
            (filter (\<lambda>reg. ComponentMetadata.category (metadata reg) \<noteq> None) regs) (n, cats))"
proof (induction regs arbitrary: n cats)
  case Nil
  then show ?case by simp
next
  case (Cons x xs)
  obtain n1 c1 where s1: "statistics_step x (n, cats) = (n1, c1)"
    by (cases "statistics_step x (n, cats)")
  show ?case
  proof (cases "ComponentMetadata.category (metadata x)")
    case None
    then have "c1 = cats"
      using s1 statistics_step_snd [of x n cats] by simp
    then show ?thesis
      using None s1 Cons.IH [of n1 cats] statistics_categories_ignore_count [of _ n1 cats]
        statistics_categories_ignore_count [of _ n cats]
      by simp
  next
    case (Some c)
    then show ?thesis using s1 Cons.IH [of n1 c1] by simp
  qed
qed

text \<open>
  What \<open>getStatistics\<close> returns, in full: as \<open>totalComponents\<close> the number of
  stored registrations, as \<open>addableComponents\<close> the number of those whose
  \<open>addable\<close> is not \<open>false\<close>, and as \<open>categorizedComponents\<close> a tally in which
  a category that is not the name of a member of \<open>Object.prototype\<close> has the number
  of its registrations as count and is absent when there is none; a category that is
  such a name has a string, and \<open>__proto__\<close> and the empty category are never keys.
  Registrations without a category do not enter the tally.
\<close>

lemma getStatistics_counts:
  "totalComponents (getStatistics s) = length (getAll s) \<and>
   addableComponents (getStatistics s) =
     length (filter (\<lambda>reg. addable (metadata reg) \<noteq> Some False) (getAll s)) \<and>
   map_of (categorizedComponents (getStatistics s)) c =
     (let n = length (filter (\<lambda>reg. ComponentMetadata.category (metadata reg) = Some c) (getAll s))
      in if n = 0 \<or> c = [] \<or> c = ''__proto__'' then None
         else if c \<in> set Object_prototype_keys then Some Text else Some (Count n)) \<and>
   categorizedComponents (getStatistics s) =
     categorizedComponents (getStatistics
       (s\<lparr>registrations :=
            filter (\<lambda>entry. ComponentMetadata.category (metadata (snd entry)) \<noteq> None)
              (registrations s)\<rparr>)) \<and>
   ((\<forall>reg\<in>set (getAll s). ComponentMetadata.category (metadata reg) = None) \<longrightarrow>
      categorizedComponents (getStatistics s) = [])"
proof -
  let ?regs = "map snd (registrations s)"
  let ?P = "\<lambda>reg. ComponentMetadata.category (metadata reg) \<noteq> None"
  have cats: "categorizedComponents (getStatistics t) =
                snd (fold statistics_step (map snd (registrations t)) (0, []))" for t
    by (simp add: getStatistics_def case_prod_beta)
  have addable: "addableComponents (getStatistics s) = fst (fold statistics_step ?regs (0, []))"
    by (simp add: getStatistics_def case_prod_beta)
  have filt: "map snd (registrations
                 (s\<lparr>registrations := filter (\<lambda>entry. ?P (snd entry)) (registrations s)\<rparr>)) =
              filter ?P ?regs"
    by (simp add: filter_map comp_def)
  have excl: "categorizedComponents (getStatistics s) =
     categorizedComponents (getStatistics
       (s\<lparr>registrations := filter (\<lambda>entry. ?P (snd entry)) (registrations s)\<rparr>))"
    unfolding cats filt by (rule statistics_categories_filter)
  have empty: "categorizedComponents (getStatistics s) = []"
    if "\<forall>reg\<in>set (getAll s). ComponentMetadata.category (metadata reg) = None"
  proof -
    from that have "filter ?P ?regs = []"
      by (auto simp: getAll_def filter_empty_conv)
    then show ?thesis
      using statistics_categories_filter [of ?regs 0 "[]"] by (simp add: cats)
  qed
  show ?thesis
    using excl empty statistics_tally [of ?regs c]
    by (simp add: cats addable fold_statistics_step_fst getAll_def)
       (simp add: getStatistics_def case_prod_beta)
qed

text \<open>
  With ordinary categories the tally is a count: two registrations of category
  \<open>Audio\<close> and one without a category give 3 components and the count 2 under
  \<open>Audio\<close> alone.
\<close>

lemma getStatistics_audio:
  "totalComponents (getStatistics audio) = 3 \<and>
   addableComponents (getStatistics audio) = 3 \<and>
   categorizedComponents (getStatistics audio) = [(''Audio'', Count 2)]"
  by (simp add: getStatistics_def statistics_step_def count_category_def
        Object_prototype_keys_def audio_defs operation_defs)

text \<open>
  C8 fails on the code where a category is the name of a member of
  \<open>Object.prototype\<close>. With two registrations of category \<open>constructor\<close> and one
  of category \<open>__proto__\<close>, \<open>totalComponents\<close> is 3, but the tally holds a string,
  not the count 2, under \<open>constructor\<close>, and has no key \<open>__proto__\<close>.
\<close>

theorem getStatistics_inherited_keys:
  "map (ComponentMetadata.category \<circ> metadata) (getAll inherited) =
     [Some ''constructor'', Some ''constructor'', Some ''__proto__''] \<and>
   totalComponents (getStatistics inherited) = 3 \<and>
   categorizedComponents (getStatistics inherited) = [(''constructor'', Text)]"
  by (simp add: getStatistics_def statistics_step_def count_category_def getAll_def
        Object_prototype_keys_def inherited_defs operation_defs)

end
